theory Spec2Isabelle
  imports Complex_Main
begin

section \<open>Data model (types.ts)\<close>

text \<open>
  A JavaScript \<open>number\<close> that holds a length or a coordinate is modelled as a \<open>real\<close>:
  exact arithmetic over finite values. Rounding, overflow and the sign of zero are outside
  this model. Where the source divides, the model says what JavaScript does when the
  divisor is zero (the quotient is then \<open>Infinity\<close>, \<open>-Infinity\<close> or \<open>NaN\<close>) instead of
  using the value HOL gives to \<open>a / 0\<close>. Page numbers are integers.
\<close>

record Stamp =
  stamp_x :: real
  stamp_y :: real
  stamp_width :: real
  stamp_height :: real
  isPlaced :: bool

text \<open>
  \<open>StampState = Record<number, Stamp>\<close>. Every key the program stores is a page number,
  a non-negative integer, and a JavaScript object enumerates such keys in ascending order
  whatever the order of insertion: an object is determined by its keys and their values.
\<close>

type_synonym StampState = "int \<rightharpoonup> Stamp"

section \<open>Application controller (App.tsx)\<close>

datatype Status = idle | loading | ready | processing

record File =
  file_name :: string
  file_type :: string

text \<open>
  The preview document handle of the rasterization library. The program reads two things
  from it: \<open>numPages\<close>, and for page \<open>n\<close> the width of its viewport at scale 1.
  \<open>viewportWidths\<close> lists those widths, page 1 first.
\<close>

record PDFDocumentProxy =
  viewportWidths :: "real list"

definition doc_numPages :: "PDFDocumentProxy \<Rightarrow> int" where
  "doc_numPages d = int (length (viewportWidths d))"

record AppState =
  app_file :: "File option"
  pdfDoc :: "PDFDocumentProxy option"
  currentPage :: int
  stamps :: StampState
  status :: Status
  error :: "string option"

definition initialState :: AppState where
  "initialState =
     \<lparr>app_file = None, pdfDoc = None, currentPage = 1, stamps = Map.empty,
      status = idle, error = None\<rparr>"

subsection \<open>handleFileChange\<close>

text \<open>
  \<open>handleFileChange\<close> runs in two parts. The first runs at once when a file is picked;
  the second runs when the loading of the document has resolved (\<open>Some doc\<close>) or rejected
  (\<open>None\<close>). \<open>selectedFile\<close> is \<open>e.target.files?.[0]\<close>, absent when nothing was picked.
\<close>

definition handleFileChange_start :: "File option \<Rightarrow> AppState \<Rightarrow> AppState" where
  "handleFileChange_start selectedFile st =
     (case selectedFile of
        Some f \<Rightarrow>
          if file_type f = ''application/pdf''
          then st\<lparr>error := None, status := loading, app_file := Some f, pdfDoc := None,
                  stamps := Map.empty, currentPage := 1\<rparr>
          else st\<lparr>error := Some ''Please select a valid PDF file.''\<rparr>
      | None \<Rightarrow> st\<lparr>error := Some ''Please select a valid PDF file.''\<rparr>)"

definition handleFileChange_loaded :: "PDFDocumentProxy option \<Rightarrow> AppState \<Rightarrow> AppState" where
  "handleFileChange_loaded loaded st =
     (case loaded of
        Some doc \<Rightarrow> st\<lparr>pdfDoc := Some doc, status := ready\<rparr>
      | None \<Rightarrow>
          st\<lparr>error := Some ''Failed to load the PDF. Please try a different file.'',
             status := idle, app_file := None\<rparr>)"

definition handleFileChange ::
  "File option \<Rightarrow> PDFDocumentProxy option \<Rightarrow> AppState \<Rightarrow> AppState" where
  "handleFileChange selectedFile loaded st =
     (case selectedFile of
        Some f \<Rightarrow>
          if file_type f = ''application/pdf''
          then handleFileChange_loaded loaded (handleFileChange_start selectedFile st)
          else handleFileChange_start selectedFile st
      | None \<Rightarrow> handleFileChange_start selectedFile st)"

subsection \<open>updateStamp and handleAddOrRemoveStamp\<close>

definition updateStamp :: "int \<Rightarrow> Stamp option \<Rightarrow> StampState \<Rightarrow> StampState" where
  "updateStamp page newStamp prev =
     (case newStamp of
        Some s \<Rightarrow> prev(page \<mapsto> s)
      | None \<Rightarrow> prev(page := None))"

definition defaultStamp :: Stamp where
  "defaultStamp =
     \<lparr>stamp_x = 100, stamp_y = 100, stamp_width = 120, stamp_height = 120, isPlaced = True\<rparr>"

definition toggleStamp :: "int \<Rightarrow> StampState \<Rightarrow> StampState" where
  "toggleStamp page ss =
     (case ss page of
        Some _ \<Rightarrow> updateStamp page None ss
      | None \<Rightarrow> updateStamp page (Some defaultStamp) ss)"

definition handleAddOrRemoveStamp :: "AppState \<Rightarrow> AppState" where
  "handleAddOrRemoveStamp st = st\<lparr>stamps := toggleStamp (currentPage st) (stamps st)\<rparr>"

subsection \<open>Page navigation\<close>

definition numPages :: "AppState \<Rightarrow> int" where
  "numPages st = (case pdfDoc st of Some d \<Rightarrow> doc_numPages d | None \<Rightarrow> 0)"

definition previousPage :: "AppState \<Rightarrow> AppState" where
  "previousPage st = st\<lparr>currentPage := max 1 (currentPage st - 1)\<rparr>"

definition nextPage :: "AppState \<Rightarrow> AppState" where
  "nextPage st = st\<lparr>currentPage := min (numPages st) (currentPage st + 1)\<rparr>"

text \<open>
  One page editor is rendered for each element of
  \<open>Array.from({ length: numPages }, (_, i) => i + 1)\<close>; a click on the editor of
  \<open>pageNumber\<close> calls \<open>setCurrentPage(pageNumber)\<close>. A click can only come from a
  rendered editor, so selecting any other number leaves the state as it is.
\<close>

definition pageNumbers :: "AppState \<Rightarrow> int list" where
  "pageNumbers st = map (\<lambda>i. int i + 1) [0 ..< nat (numPages st)]"

definition selectPage :: "int \<Rightarrow> AppState \<Rightarrow> AppState" where
  "selectPage pageNumber st =
     (if pageNumber \<in> set (pageNumbers st) then st\<lparr>currentPage := pageNumber\<rparr> else st)"

datatype Navigation = Previous | Next | Select int

fun navigate :: "Navigation \<Rightarrow> AppState \<Rightarrow> AppState" where
  "navigate Previous st = previousPage st"
| "navigate Next st = nextPage st"
| "navigate (Select n) st = selectPage n st"

subsection \<open>handleDownload: the export pipeline\<close>

text \<open>
  What the two libraries answer during one export. \<open>pageSizes\<close> is the answer of
  \<open>PDFDocument.load\<close>: \<open>None\<close> when it rejects, otherwise the \<open>(width, height)\<close> that
  \<open>getSize()\<close> gives for each element of \<open>getPages()\<close>, first page first. The flags say
  whether a step that can throw or reject goes through: reading the bytes of the file,
  decoding and embedding the stamp image, drawing on a page, saving, and building the
  blob and its link. The two clean-up calls after \<open>link.click()\<close> (removing the link that
  was just appended, revoking the object URL) do not fail.
\<close>

record Env =
  arrayBufferOk :: bool
  pageSizes :: "(real \<times> real) list option"
  embedPngOk :: bool
  drawImageOk :: "int \<Rightarrow> bool"
  saveOk :: bool
  blobOk :: bool

record DrawOptions =
  draw_x :: real
  draw_y :: real
  draw_width :: real
  draw_height :: real
  draw_opacity :: real

text \<open>
  The rectangle handed to \<open>drawImage\<close>: finite numbers, or \<open>NonFinite\<close> when its numbers
  are \<open>Infinity\<close>, \<open>-Infinity\<close> or \<open>NaN\<close>.
\<close>

datatype Drawn = Rect DrawOptions | NonFinite

text \<open>The calls the export makes, in the order it makes them.\<close>

datatype Effect =
    ReadFile
  | LoadDocument
  | EmbedPng
  | DrawImage int Drawn
  | Save
  | Download string

text \<open>What was thrown inside the \<open>try\<close> block.\<close>

datatype Failure =
    ArrayBufferFailed
  | LoadFailed
  | EmbedFailed
  | NoSuchPage int
  | GetPageFailed int
  | NoStampData int
  | DrawFailed int
  | SaveFailed
  | BlobFailed

text \<open>
  \<open>getPages()[pageNum - 1]\<close> and \<open>getPage(pageNum)\<close>: the entry of a 1-based page number,
  absent (\<open>undefined\<close>, or a rejected promise) when the number is out of range.
\<close>

definition pageEntry :: "'a list \<Rightarrow> int \<Rightarrow> 'a option" where
  "pageEntry xs pageNum =
     (if 1 \<le> pageNum \<and> pageNum \<le> int (length xs) then Some (xs ! nat (pageNum - 1))
      else None)"

text \<open>
  Lines 111 to 116 of App.tsx. With \<open>renderedPageWidth = 0\<close> the scale is zero or \<open>NaN\<close>
  and every quotient by it is infinite or \<open>NaN\<close>. With \<open>pageWidth = 0\<close> and
  \<open>renderedPageWidth \<noteq> 0\<close> the scale is infinite, every quotient by it is zero, and
  \<open>yPoints\<close> is \<open>pageHeight\<close>.
\<close>

definition toPoints :: "Stamp \<Rightarrow> real \<Rightarrow> real \<Rightarrow> real \<Rightarrow> Drawn" where
  "toPoints stampData pageWidth pageHeight renderedPageWidth =
     (if renderedPageWidth = 0 then NonFinite
      else if pageWidth = 0 then
        Rect \<lparr>draw_x = 0, draw_y = pageHeight, draw_width = 0, draw_height = 0,
              draw_opacity = 85 / 100\<rparr>
      else
        let scale = renderedPageWidth / pageWidth;
            stampWidthPoints = stamp_width stampData / scale;
            stampHeightPoints = stamp_height stampData / scale;
            xPoints = stamp_x stampData / scale;
            yPoints = pageHeight - (stamp_y stampData / scale) - stampHeightPoints
        in Rect \<lparr>draw_x = xPoints, draw_y = yPoints, draw_width = stampWidthPoints,
                 draw_height = stampHeightPoints, draw_opacity = 85 / 100\<rparr>)"

text \<open>The body of the \<open>for\<close> loop for one key: the call it ends with, or what it throws.\<close>

definition stampPage ::
  "Env \<Rightarrow> (real \<times> real) list \<Rightarrow> PDFDocumentProxy option \<Rightarrow> StampState \<Rightarrow> int
     \<Rightarrow> Failure + Effect" where
  "stampPage env sizes doc ss pageNum =
     (case pageEntry sizes pageNum of
        None \<Rightarrow> Inl (NoSuchPage pageNum)
      | Some (pageWidth, pageHeight) \<Rightarrow>
          (case doc of
             None \<Rightarrow> Inl (GetPageFailed pageNum)
           | Some d \<Rightarrow>
               (case pageEntry (viewportWidths d) pageNum of
                  None \<Rightarrow> Inl (GetPageFailed pageNum)
                | Some renderedPageWidth \<Rightarrow>
                    (case ss pageNum of
                       None \<Rightarrow> Inl (NoStampData pageNum)
                     | Some stampData \<Rightarrow>
                         if drawImageOk env pageNum
                         then Inr (DrawImage pageNum
                                (toPoints stampData pageWidth pageHeight renderedPageWidth))
                         else Inl (DrawFailed pageNum)))))"

text \<open>
  The \<open>for (const pageStr in stamps)\<close> loop over the keys still to visit. It stops at the
  first page that throws. The result is what was thrown, if anything, and the calls made.
\<close>

fun stampPages ::
  "Env \<Rightarrow> (real \<times> real) list \<Rightarrow> PDFDocumentProxy option \<Rightarrow> StampState \<Rightarrow> int list
     \<Rightarrow> Effect list \<Rightarrow> Failure option \<times> Effect list" where
  "stampPages env sizes doc ss [] made = (None, made)"
| "stampPages env sizes doc ss (pageNum # rest) made =
     (case stampPage env sizes doc ss pageNum of
        Inl failure \<Rightarrow> (Some failure, made)
      | Inr effect \<Rightarrow> stampPages env sizes doc ss rest (made @ [effect]))"

text \<open>\<open>Object.keys(stamps)\<close>, also the keys the \<open>for ... in\<close> loop visits.\<close>

definition stampKeys :: "StampState \<Rightarrow> int list" where
  "stampKeys ss = sorted_list_of_set (dom ss)"

text \<open>The \<open>try\<close> block of \<open>handleDownload\<close>.\<close>

definition exportPdf :: "Env \<Rightarrow> AppState \<Rightarrow> File \<Rightarrow> Failure option \<times> Effect list" where
  "exportPdf env st f =
     (if \<not> arrayBufferOk env then (Some ArrayBufferFailed, [ReadFile])
      else case pageSizes env of
        None \<Rightarrow> (Some LoadFailed, [ReadFile, LoadDocument])
      | Some sizes \<Rightarrow>
          if \<not> embedPngOk env then (Some EmbedFailed, [ReadFile, LoadDocument, EmbedPng])
          else
            (case stampPages env sizes (pdfDoc st) (stamps st) (stampKeys (stamps st))
                    [ReadFile, LoadDocument, EmbedPng] of
               (Some failure, calls) \<Rightarrow> (Some failure, calls)
             | (None, calls) \<Rightarrow>
                 if \<not> saveOk env then (Some SaveFailed, calls @ [Save])
                 else if \<not> blobOk env then (Some BlobFailed, calls @ [Save])
                 else (None, calls @ [Save, Download (''stamped_'' @ file_name f)])))"

text \<open>
  \<open>handleDownload\<close> from the click to the end of its \<open>finally\<close> block: the state it
  leaves and the calls it made.
\<close>

definition handleDownload :: "Env \<Rightarrow> AppState \<Rightarrow> AppState \<times> Effect list" where
  "handleDownload env st =
     (case app_file st of
        None \<Rightarrow> (st\<lparr>error := Some ''Please add at least one stamp before downloading.''\<rparr>, [])
      | Some f \<Rightarrow>
          if length (stampKeys (stamps st)) = 0
          then (st\<lparr>error := Some ''Please add at least one stamp before downloading.''\<rparr>, [])
          else
            (case exportPdf env (st\<lparr>error := None, status := processing\<rparr>) f of
               (Some failure, calls) \<Rightarrow>
                 (st\<lparr>error := Some ''An error occurred while creating the stamped PDF.'',
                     status := ready\<rparr>, calls)
             | (None, calls) \<Rightarrow> (st\<lparr>error := None, status := ready\<rparr>, calls)))"

section \<open>Page editor (components/PdfEditor.tsx)\<close>

record Point =
  point_x :: real
  point_y :: real

record MouseEvent =
  clientX :: real
  clientY :: real

record DOMRect =
  rect_left :: real
  rect_top :: real

record EditorState =
  isDragging :: bool
  isResizing :: bool
  dragOffset :: Point

definition initialEditor :: EditorState where
  "initialEditor =
     \<lparr>isDragging = False, isResizing = False, dragOffset = \<lparr>point_x = 0, point_y = 0\<rparr>\<rparr>"

text \<open>
  \<open>container\<close> is the bounding rectangle of \<open>containerRef.current\<close>, absent while the
  reference is null. The local \<open>p2\<close> of the source is never used; it reads the first
  client rectangle of the wrapper, which exists whenever the wrapper is laid out.
\<close>

definition getRelativeCoords :: "DOMRect option \<Rightarrow> MouseEvent \<Rightarrow> Point" where
  "getRelativeCoords container e =
     (case container of
        None \<Rightarrow> \<lparr>point_x = 0, point_y = 0\<rparr>
      | Some rect \<Rightarrow>
          \<lparr>point_x = clientX e - rect_left rect, point_y = clientY e - rect_top rect\<rparr>)"

definition handleStampMouseDown ::
  "Stamp option \<Rightarrow> DOMRect option \<Rightarrow> MouseEvent \<Rightarrow> EditorState \<Rightarrow> EditorState" where
  "handleStampMouseDown stamp container e ed =
     (case stamp of
        None \<Rightarrow> ed
      | Some s \<Rightarrow>
          let coords = getRelativeCoords container e
          in ed\<lparr>dragOffset := \<lparr>point_x = point_x coords - stamp_x s,
                                point_y = point_y coords - stamp_y s\<rparr>,
                isDragging := True\<rparr>)"

definition handleResizeHandleMouseDown :: "EditorState \<Rightarrow> EditorState" where
  "handleResizeHandleMouseDown ed = ed\<lparr>isResizing := True\<rparr>"

definition handleMouseUp :: "EditorState \<Rightarrow> EditorState" where
  "handleMouseUp ed = ed\<lparr>isDragging := False, isResizing := False\<rparr>"

text \<open>The stamp that the drag branch of \<open>handleMouseMove\<close> passes to \<open>onStampChange\<close>.\<close>

definition dragStamp :: "Stamp \<Rightarrow> Point \<Rightarrow> Point \<Rightarrow> Stamp" where
  "dragStamp stamp coords offset =
     stamp\<lparr>stamp_x := point_x coords - point_x offset,
            stamp_y := point_y coords - point_y offset\<rparr>"

text \<open>
  The stamp that the resize branch passes to \<open>onStampChange\<close>. When the stamp's width or
  height is zero the aspect ratio is zero, infinite or \<open>NaN\<close>, and the new width or the
  new height is not the finite number a \<open>Stamp\<close> of this model holds: the result is
  \<open>None\<close> there.
\<close>

definition resizeStamp :: "Stamp \<Rightarrow> Point \<Rightarrow> Stamp option" where
  "resizeStamp stamp coords =
     (let newWidth = max 50 (point_x coords - stamp_x stamp);
          newHeight = max 50 (point_y coords - stamp_y stamp)
      in if stamp_width stamp = 0 \<or> stamp_height stamp = 0 then None
         else
           let aspectRatio = stamp_width stamp / stamp_height stamp
           in Some (stamp\<lparr>stamp_width := max newWidth (newHeight * aspectRatio),
                           stamp_height := max newWidth (newHeight * aspectRatio) / aspectRatio\<rparr>))"

text \<open>
  \<open>handleMouseMove\<close>: the arguments of its calls of \<open>onStampChange\<close>, in order; \<open>None\<close>
  when the resize branch leaves the model.
\<close>

definition handleMouseMove ::
  "EditorState \<Rightarrow> Stamp option \<Rightarrow> DOMRect option \<Rightarrow> MouseEvent \<Rightarrow> Stamp list option" where
  "handleMouseMove ed stamp container e =
     (case stamp of
        None \<Rightarrow> Some []
      | Some s \<Rightarrow>
          if \<not> isDragging ed \<and> \<not> isResizing ed then Some []
          else
            let coords = getRelativeCoords container e;
                dragged = (if isDragging ed then [dragStamp s coords (dragOffset ed)] else [])
            in if isResizing ed
               then (case resizeStamp s coords of
                       None \<Rightarrow> None
                     | Some resized \<Rightarrow> Some (dragged @ [resized]))
               else Some dragged)"

text \<open>
  The editor of page \<open>pageNumber\<close> gets \<open>stamp = stamps[pageNumber]\<close> and
  \<open>onStampChange = (s) => updateStamp(pageNumber, s)\<close> from the controller. This is the
  StampState after one pointer move over that editor.
\<close>

definition editorMouseMove ::
  "int \<Rightarrow> EditorState \<Rightarrow> DOMRect option \<Rightarrow> MouseEvent \<Rightarrow> StampState \<Rightarrow> StampState option" where
  "editorMouseMove pageNumber ed container e ss =
     (case handleMouseMove ed (ss pageNumber) container e of
        None \<Rightarrow> None
      | Some changes \<Rightarrow> Some (foldl (\<lambda>m s. updateStamp pageNumber (Some s) m) ss changes))"

section \<open>Invariants of StampState\<close>

definition allPlaced :: "StampState \<Rightarrow> bool" where
  "allPlaced ss = (\<forall>page s. ss page = Some s \<longrightarrow> isPlaced s)"

definition allSized :: "StampState \<Rightarrow> bool" where
  "allSized ss =
     (\<forall>page s. ss page = Some s \<longrightarrow> 50 \<le> stamp_width s \<and> 50 \<le> stamp_height s)"

text \<open>
  The StampStates the program can hold: the empty one (the initial value, and the value
  after a file is picked), and what toggling on any page and a pointer move over any
  page editor make of a reachable one.
\<close>

inductive reachable :: "StampState \<Rightarrow> bool" where
  cleared: "reachable Map.empty"
| toggled: "reachable ss \<Longrightarrow> reachable (toggleStamp page ss)"
| moved: "reachable ss \<Longrightarrow> editorMouseMove page ed container e ss = Some ss' \<Longrightarrow>
            reachable ss'"

section \<open>A sample session\<close>

definition sampleFile :: File where
  "sampleFile = \<lparr>file_name = ''deed.pdf'', file_type = ''application/pdf''\<rparr>"

definition sampleDoc :: PDFDocumentProxy where
  "sampleDoc = \<lparr>viewportWidths = [1224, 612, 612]\<rparr>"

definition sampleEnv :: Env where
  "sampleEnv =
     \<lparr>arrayBufferOk = True, pageSizes = Some [(612, 792), (612, 792), (612, 792)],
      embedPngOk = True, drawImageOk = (\<lambda>_. True), saveOk = True, blobOk = True\<rparr>"

definition sampleState :: AppState where
  "sampleState =
     \<lparr>app_file = Some sampleFile, pdfDoc = Some sampleDoc, currentPage = 1,
      stamps = [1 \<mapsto> defaultStamp], status = ready, error = None\<rparr>"

definition movedStamp :: Stamp where
  "movedStamp =
     \<lparr>stamp_x = 200, stamp_y = 100, stamp_width = 120, stamp_height = 60, isPlaced = True\<rparr>"

text \<open>The sample state after the stamp on page 1 was dragged 100 pixels to the right.\<close>

definition shiftedStamp :: Stamp where
  "shiftedStamp =
     \<lparr>stamp_x = 200, stamp_y = 100, stamp_width = 120, stamp_height = 120, isPlaced = True\<rparr>"

definition draggedState :: AppState where
  "draggedState = sampleState\<lparr>stamps := [1 \<mapsto> shiftedStamp]\<rparr>"

text \<open>
  A second session: the pages differ in size and in viewport width, and pages 1 and 2
  both carry a stamp.
\<close>

definition mixedEnv :: Env where
  "mixedEnv = sampleEnv\<lparr>pageSizes := Some [(612, 792), (1224, 1000), (612, 792)]\<rparr>"

definition twoStampState :: AppState where
  "twoStampState = sampleState\<lparr>stamps := [1 \<mapsto> defaultStamp, 2 \<mapsto> shiftedStamp]\<rparr>"

definition sampleRect :: DOMRect where
  "sampleRect = \<lparr>rect_left = 10, rect_top = 20\<rparr>"

definition samplePointer :: MouseEvent where
  "samplePointer = \<lparr>clientX = 410, clientY = 420\<rparr>"

section \<open>The update of one page's stamp\<close>

text \<open>
  Claim C10. \<open>updateStamp(p, \<cdot>)\<close> leaves the entry of every other page \<open>q\<close> as it was,
  whether it inserts, replaces or deletes the entry of \<open>p\<close>; and deleting the entry of a
  page that has none gives back a StampState equal to the one it was given.
\<close>

theorem updateStamp_frame:
  "(q \<noteq> p \<longrightarrow> updateStamp p v ss q = ss q) \<and>
   (ss p = None \<longrightarrow> updateStamp p None ss = ss)"
  by (auto simp: updateStamp_def split: option.splits)

theorem updateStamp_frame_witness:
  "(2::int) \<noteq> 1 \<and> ([2 \<mapsto> movedStamp] :: StampState) 1 = None \<and>
   updateStamp 1 (Some defaultStamp) [2 \<mapsto> movedStamp] 2 = Some movedStamp \<and>
   updateStamp 1 None [2 \<mapsto> movedStamp] = [2 \<mapsto> movedStamp]"
  using updateStamp_frame [of 2 1 "Some defaultStamp" "[2 \<mapsto> movedStamp]"]
    updateStamp_frame [of 2 1 None "[2 \<mapsto> movedStamp]"]
  by simp

section \<open>Toggling a stamp\<close>

lemma toggleStamp_twice:
  "toggleStamp p (toggleStamp p ss) = ss \<longleftrightarrow> (ss p = None \<or> ss p = Some defaultStamp)"
  by (cases "ss p")
    (auto simp: toggleStamp_def updateStamp_def fun_upd_idem_iff split: option.splits)

text \<open>
  The state \<open>draggedState\<close> arises from the sample state by one drag: pointer-down on
  the stamp at (160, 180), then a pointer move to (260, 180).
\<close>

lemma draggedState_by_drag:
  "editorMouseMove 1
     (handleStampMouseDown (Some defaultStamp) (Some sampleRect)
        \<lparr>clientX = 160, clientY = 180\<rparr> initialEditor)
     (Some sampleRect) \<lparr>clientX = 260, clientY = 180\<rparr> (stamps sampleState)
   = Some (stamps draggedState)"
  by (simp add: editorMouseMove_def handleMouseMove_def handleStampMouseDown_def
      getRelativeCoords_def dragStamp_def updateStamp_def initialEditor_def sampleRect_def
      sampleState_def draggedState_def defaultStamp_def shiftedStamp_def Let_def)

lemma draggedState_reachable: "reachable (stamps draggedState)"
proof -
  have "reachable (toggleStamp 1 Map.empty)"
    by (rule reachable.toggled) (rule reachable.cleared)
  moreover have "toggleStamp 1 Map.empty = stamps sampleState"
    by (simp add: toggleStamp_def updateStamp_def sampleState_def)
  ultimately have "reachable (stamps sampleState)" by simp
  then show ?thesis using draggedState_by_drag by (rule reachable.moved)
qed

text \<open>
  Claim C2, as stated, fails. On a page whose stamp was dragged away from its default
  place the first toggle deletes the stamp and the second puts the default stamp there:
  the StampState after the two toggles is not the one before them.
\<close>

theorem toggle_twice_counterexample:
  "stamps (handleAddOrRemoveStamp (handleAddOrRemoveStamp draggedState)) \<noteq> stamps draggedState"
proof
  assume "stamps (handleAddOrRemoveStamp (handleAddOrRemoveStamp draggedState))
            = stamps draggedState"
  then have "stamps (handleAddOrRemoveStamp (handleAddOrRemoveStamp draggedState)) 1
               = stamps draggedState 1"
    by (rule fun_cong)
  then show False
    by (simp add: handleAddOrRemoveStamp_def draggedState_def sampleState_def toggleStamp_def
        updateStamp_def defaultStamp_def shiftedStamp_def)
qed

text \<open>
  Claim C2, amended. Two toggles in succession on the active page give back the state
  they started from exactly when that page had no stamp, or had the default stamp
  (x = 100, y = 100, width = 120, height = 120, placed).
\<close>

theorem toggle_twice_identity_iff:
  "handleAddOrRemoveStamp (handleAddOrRemoveStamp st) = st \<longleftrightarrow>
     (stamps st (currentPage st) = None \<or> stamps st (currentPage st) = Some defaultStamp)"
proof -
  have "handleAddOrRemoveStamp (handleAddOrRemoveStamp st) =
          st\<lparr>stamps := toggleStamp (currentPage st) (toggleStamp (currentPage st) (stamps st))\<rparr>"
    by (simp add: handleAddOrRemoveStamp_def)
  moreover have "st\<lparr>stamps := m\<rparr> = st \<longleftrightarrow> m = stamps st" for m
    by (cases st) auto
  ultimately show ?thesis
    using toggleStamp_twice [of "currentPage st" "stamps st"] by simp
qed

theorem toggle_twice_identity_iff_witness:
  "stamps (sampleState\<lparr>stamps := Map.empty\<rparr>)
     (currentPage (sampleState\<lparr>stamps := Map.empty\<rparr>)) = None \<and>
   handleAddOrRemoveStamp (handleAddOrRemoveStamp (sampleState\<lparr>stamps := Map.empty\<rparr>))
     = sampleState\<lparr>stamps := Map.empty\<rparr>"
  using toggle_twice_identity_iff [of "sampleState\<lparr>stamps := Map.empty\<rparr>"]
  by (simp add: sampleState_def)

section \<open>Page navigation keeps the current page in range\<close>

lemma numPages_navigate: "numPages (navigate nav st) = numPages st"
  by (cases nav) (simp_all add: numPages_def previousPage_def nextPage_def selectPage_def)

lemma set_pageNumbers: "n \<in> set (pageNumbers st) \<longleftrightarrow> 1 \<le> n \<and> n \<le> numPages st"
proof
  assume "n \<in> set (pageNumbers st)"
  then obtain i where "i < nat (numPages st)" "n = int i + 1"
    by (auto simp: pageNumbers_def)
  then show "1 \<le> n \<and> n \<le> numPages st" by linarith
next
  assume "1 \<le> n \<and> n \<le> numPages st"
  then have "nat (n - 1) \<in> set [0 ..< nat (numPages st)]" "n = int (nat (n - 1)) + 1"
    by auto
  then show "n \<in> set (pageNumbers st)"
    unfolding pageNumbers_def set_map by (rule image_eqI [rotated])
qed

text \<open>
  Claim C4. With a document of at least one page loaded and the current page in
  \<open>1 .. numPages\<close>, every navigation leaves the current page in \<open>1 .. numPages\<close>:
  previous-page sets it to \<open>max(1, currentPage - 1)\<close>, next-page to
  \<open>min(numPages, currentPage + 1)\<close>, and selecting a page to that page's 1-based number.
\<close>

theorem navigation_in_range:
  assumes "1 \<le> numPages st" and "1 \<le> currentPage st" and "currentPage st \<le> numPages st"
  shows "1 \<le> currentPage (navigate nav st) \<and>
         currentPage (navigate nav st) \<le> numPages (navigate nav st) \<and>
         currentPage (navigate Previous st) = max 1 (currentPage st - 1) \<and>
         currentPage (navigate Next st) = min (numPages st) (currentPage st + 1) \<and>
         (\<forall>n. 1 \<le> n \<and> n \<le> numPages st \<longrightarrow> currentPage (navigate (Select n) st) = n)"
proof -
  have range: "1 \<le> currentPage (navigate nav st) \<and> currentPage (navigate nav st) \<le> numPages st"
  proof (cases nav)
    case Previous
    with assms show ?thesis by (simp add: previousPage_def)
  next
    case Next
    with assms show ?thesis by (simp add: nextPage_def)
  next
    case (Select n)
    with assms show ?thesis by (simp add: selectPage_def set_pageNumbers)
  qed
  have "currentPage (navigate Previous st) = max 1 (currentPage st - 1)"
    by (simp add: previousPage_def)
  moreover have "currentPage (navigate Next st) = min (numPages st) (currentPage st + 1)"
    by (simp add: nextPage_def)
  moreover have "\<forall>n. 1 \<le> n \<and> n \<le> numPages st \<longrightarrow> currentPage (navigate (Select n) st) = n"
    by (simp add: selectPage_def set_pageNumbers)
  ultimately show ?thesis using range by (simp add: numPages_navigate)
qed

theorem navigation_in_range_witness:
  "1 \<le> numPages sampleState \<and> 1 \<le> currentPage sampleState \<and>
   currentPage sampleState \<le> numPages sampleState \<and>
   numPages sampleState = 3 \<and>
   currentPage (navigate Previous sampleState) = 1 \<and>
   currentPage (navigate Next sampleState) = 2 \<and>
   currentPage (navigate (Select 3) sampleState) = 3 \<and>
   currentPage (navigate (Select 3) sampleState) \<le> numPages (navigate (Select 3) sampleState)"
proof -
  have n: "numPages sampleState = 3"
    by (simp add: numPages_def doc_numPages_def sampleState_def sampleDoc_def)
  have c: "currentPage sampleState = 1"
    by (simp add: sampleState_def)
  have h: "1 \<le> numPages sampleState" "1 \<le> currentPage sampleState"
    "currentPage sampleState \<le> numPages sampleState"
    using n c by simp_all
  from navigation_in_range [OF h, of "Select 3"] n c h show ?thesis by auto
qed

section \<open>Selecting a file\<close>

text \<open>
  Claim C7. Selecting a file whose declared type is not \<open>application/pdf\<close> sets the
  error message and changes nothing else: status, file, document handle, stamps and
  current page keep their values, whatever the loader would have answered. From the
  initial state the status is still \<open>idle\<close>.
\<close>

theorem non_pdf_rejected:
  assumes "file_type f \<noteq> ''application/pdf''"
  shows "handleFileChange (Some f) loaded st =
           st\<lparr>error := Some ''Please select a valid PDF file.''\<rparr> \<and>
         status (handleFileChange (Some f) loaded initialState) = idle"
  using assms
  by (simp add: handleFileChange_def handleFileChange_start_def initialState_def)

theorem non_pdf_rejected_witness:
  "file_type \<lparr>file_name = ''seal.png'', file_type = ''image/png''\<rparr> \<noteq> ''application/pdf'' \<and>
   handleFileChange (Some \<lparr>file_name = ''seal.png'', file_type = ''image/png''\<rparr>)
     (Some sampleDoc) sampleState =
     sampleState\<lparr>error := Some ''Please select a valid PDF file.''\<rparr>"
  using non_pdf_rejected
    [of "\<lparr>file_name = ''seal.png'', file_type = ''image/png''\<rparr>" "Some sampleDoc" sampleState]
  by simp

section \<open>The export pipeline\<close>

lemma stampKeys_empty: "stampKeys Map.empty = []"
  by (simp add: stampKeys_def)

lemma set_stampKeys: "finite (dom ss) \<Longrightarrow> set (stampKeys ss) = dom ss"
  by (simp add: stampKeys_def)

text \<open>
  Claim C5. Export with no file loaded, or with an empty StampState, sets the error
  message, calls neither library and starts no download (the list of calls is empty),
  and leaves every other component of the state as it was.
\<close>

theorem export_guard:
  assumes "app_file st = None \<or> stamps st = Map.empty"
  shows "handleDownload env st =
           (st\<lparr>error := Some ''Please add at least one stamp before downloading.''\<rparr>, [])"
  using assms by (auto simp: handleDownload_def stampKeys_empty split: option.splits)

theorem export_guard_witness:
  "(app_file (sampleState\<lparr>stamps := Map.empty\<rparr>) = None \<or>
      stamps (sampleState\<lparr>stamps := Map.empty\<rparr>) = Map.empty) \<and>
   handleDownload sampleEnv (sampleState\<lparr>stamps := Map.empty\<rparr>) =
     (sampleState\<lparr>stamps := Map.empty,
        error := Some ''Please add at least one stamp before downloading.''\<rparr>, [])"
  using export_guard [of "sampleState\<lparr>stamps := Map.empty\<rparr>" sampleEnv]
  by simp

lemma stampPages_keeps:
  "stampPages env sizes doc ss ks made = (r, calls) \<Longrightarrow> set made \<subseteq> set calls"
proof (induction ks arbitrary: made)
  case Nil
  then show ?case by simp
next
  case (Cons k ks)
  show ?case
  proof (cases "stampPage env sizes doc ss k")
    case (Inl failure)
    with Cons.prems show ?thesis by simp
  next
    case (Inr effect)
    with Cons.prems have "stampPages env sizes doc ss ks (made @ [effect]) = (r, calls)"
      by simp
    from Cons.IH [OF this] show ?thesis by simp
  qed
qed

lemma stampPages_visits:
  "stampPages env sizes doc ss ks made = (None, calls) \<Longrightarrow> k \<in> set ks \<Longrightarrow>
     \<exists>effect. stampPage env sizes doc ss k = Inr effect \<and> effect \<in> set calls"
proof (induction ks arbitrary: made)
  case Nil
  then show ?case by simp
next
  case (Cons a ks)
  show ?case
  proof (cases "stampPage env sizes doc ss a")
    case (Inl failure)
    with Cons.prems show ?thesis by simp
  next
    case (Inr effect)
    with Cons.prems have rest: "stampPages env sizes doc ss ks (made @ [effect]) = (None, calls)"
      by simp
    show ?thesis
    proof (cases "k = a")
      case True
      with Inr stampPages_keeps [OF rest] show ?thesis by auto
    next
      case False
      with Cons.prems have "k \<in> set ks" by simp
      from Cons.IH [OF rest this] show ?thesis .
    qed
  qed
qed

lemma stampPage_draws:
  assumes "stampPage env sizes doc ss p = Inr effect"
  shows "\<exists>d pw ph rw s. doc = Some d \<and> pageEntry sizes p = Some (pw, ph) \<and>
           pageEntry (viewportWidths d) p = Some rw \<and> ss p = Some s \<and>
           effect = DrawImage p (toPoints s pw ph rw)"
  using assms by (auto simp: stampPage_def split: option.splits if_splits prod.splits)


lemma exportPdf_completed:
  assumes "exportPdf env st f = (None, calls)"
  shows "\<exists>sizes pre. pageSizes env = Some sizes \<and>
           stampPages env sizes (pdfDoc st) (stamps st) (stampKeys (stamps st))
             [ReadFile, LoadDocument, EmbedPng] = (None, pre) \<and>
           calls = pre @ [Save, Download (''stamped_'' @ file_name f)]"
  using assms by (auto simp: exportPdf_def split: option.splits if_splits prod.splits)



lemma toPoints_formula:
  assumes "pw \<noteq> 0" and "rw \<noteq> 0"
  shows "toPoints s pw ph rw =
     Rect \<lparr>draw_x = stamp_x s / (rw / pw),
           draw_y = ph - stamp_y s / (rw / pw) - stamp_height s / (rw / pw),
           draw_width = stamp_width s / (rw / pw),
           draw_height = stamp_height s / (rw / pw),
           draw_opacity = 85 / 100\<rparr>"
  using assms by (simp add: toPoints_def Let_def)

text \<open>
  Claim C1. When an export runs to its end, then for every page \<open>p\<close> that has a stamp
  \<open>s\<close> in StampState, \<open>p\<close> is a page number of both documents, and with
  \<open>(pageWidth, pageHeight)\<close> the size of element \<open>p - 1\<close> of the mutation library's
  pages, \<open>renderedWidth\<close> the viewport width at scale 1 of page \<open>p\<close> of the preview
  document, and \<open>scale = renderedWidth / pageWidth\<close>, the export has drawn on page \<open>p\<close>
  the rectangle of width \<open>s.width / scale\<close>, height \<open>s.height / scale\<close>,
  x \<open>s.x / scale\<close> and y \<open>pageHeight - s.y / scale - s.height / scale\<close>, at opacity
  0.85. The two widths are taken to be non-zero, so that the quotients are those of exact
  arithmetic; a StampState has finitely many keys.
\<close>

theorem export_stamp_geometry:
  assumes run: "handleDownload env st = (st', calls)"
    and completed: "error st' = None"
    and fin: "finite (dom (stamps st))"
    and p: "stamps st p = Some s"
  shows "\<exists>sizes d.
           pageSizes env = Some sizes \<and> pdfDoc st = Some d \<and>
           1 \<le> p \<and> p \<le> int (length sizes) \<and> p \<le> int (length (viewportWidths d)) \<and>
           (let pageWidth = fst (sizes ! nat (p - 1));
                pageHeight = snd (sizes ! nat (p - 1));
                renderedWidth = viewportWidths d ! nat (p - 1);
                scale = renderedWidth / pageWidth
            in pageWidth \<noteq> 0 \<and> renderedWidth \<noteq> 0 \<longrightarrow>
                 DrawImage p (Rect \<lparr>draw_x = stamp_x s / scale,
                    draw_y = pageHeight - stamp_y s / scale - stamp_height s / scale,
                    draw_width = stamp_width s / scale,
                    draw_height = stamp_height s / scale,
                    draw_opacity = 85 / 100\<rparr>) \<in> set calls)"
proof -
  from run completed obtain f where
    ex: "exportPdf env (st\<lparr>error := None, status := processing\<rparr>) f = (None, calls)"
    by (auto simp: handleDownload_def split: option.splits if_splits prod.splits)
  from exportPdf_completed [OF ex] obtain sizes pre where
    sizes: "pageSizes env = Some sizes"
    and loop: "stampPages env sizes (pdfDoc st) (stamps st) (stampKeys (stamps st))
             [ReadFile, LoadDocument, EmbedPng] = (None, pre)"
    and calls: "calls = pre @ [Save, Download (''stamped_'' @ file_name f)]"
    by auto
  from p fin have "p \<in> set (stampKeys (stamps st))"
    by (auto simp: set_stampKeys)
  from stampPages_visits [OF loop this] obtain effect where
    effect: "stampPage env sizes (pdfDoc st) (stamps st) p = Inr effect"
    and mem: "effect \<in> set pre"
    by auto
  from stampPage_draws [OF effect] p obtain d pw ph rw where
    d: "pdfDoc st = Some d" and sz: "pageEntry sizes p = Some (pw, ph)"
    and rw: "pageEntry (viewportWidths d) p = Some rw"
    and effect_eq: "effect = DrawImage p (toPoints s pw ph rw)"
    by auto
  from sz have range: "1 \<le> p" "p \<le> int (length sizes)"
    and entry: "sizes ! nat (p - 1) = (pw, ph)"
    by (simp_all add: pageEntry_def split: if_splits)
  from rw have range': "p \<le> int (length (viewportWidths d))"
    and width: "viewportWidths d ! nat (p - 1) = rw"
    by (simp_all add: pageEntry_def split: if_splits)
  from mem calls effect_eq have draw: "DrawImage p (toPoints s pw ph rw) \<in> set calls"
    by simp
  have "pw \<noteq> 0 \<and> rw \<noteq> 0 \<longrightarrow>
          DrawImage p (Rect \<lparr>draw_x = stamp_x s / (rw / pw),
             draw_y = ph - stamp_y s / (rw / pw) - stamp_height s / (rw / pw),
             draw_width = stamp_width s / (rw / pw),
             draw_height = stamp_height s / (rw / pw),
             draw_opacity = 85 / 100\<rparr>) \<in> set calls"
  proof
    assume "pw \<noteq> 0 \<and> rw \<noteq> 0"
    then have nz: "pw \<noteq> 0" "rw \<noteq> 0" by simp_all
    from draw show "DrawImage p (Rect \<lparr>draw_x = stamp_x s / (rw / pw),
             draw_y = ph - stamp_y s / (rw / pw) - stamp_height s / (rw / pw),
             draw_width = stamp_width s / (rw / pw),
             draw_height = stamp_height s / (rw / pw),
             draw_opacity = 85 / 100\<rparr>) \<in> set calls"
      unfolding toPoints_formula [OF nz] .
  qed
  then have "let pageWidth = fst (sizes ! nat (p - 1));
                pageHeight = snd (sizes ! nat (p - 1));
                renderedWidth = viewportWidths d ! nat (p - 1);
                scale = renderedWidth / pageWidth
            in pageWidth \<noteq> 0 \<and> renderedWidth \<noteq> 0 \<longrightarrow>
                 DrawImage p (Rect \<lparr>draw_x = stamp_x s / scale,
                    draw_y = pageHeight - stamp_y s / scale - stamp_height s / scale,
                    draw_width = stamp_width s / scale,
                    draw_height = stamp_height s / scale,
                    draw_opacity = 85 / 100\<rparr>) \<in> set calls"
    unfolding Let_def entry width fst_conv snd_conv .
  with sizes d range range' show ?thesis by blast
qed

text \<open>
  The witness exports pages 1 and 2 of the second session. Page 2 has size 1224 by 1000
  and viewport width 612, so its scale is 1/2: the stamp at (200, 100) of size 120 by 120
  is drawn at (400, 560) with size 240 by 240. Page 1 has size 612 by 792 and viewport
  width 1224.
\<close>

theorem export_stamp_geometry_witness:
  "handleDownload mixedEnv twoStampState =
     (twoStampState,
      [ReadFile, LoadDocument, EmbedPng,
       DrawImage 1 (Rect \<lparr>draw_x = 50, draw_y = 682, draw_width = 60, draw_height = 60,
                          draw_opacity = 85 / 100\<rparr>),
       DrawImage 2 (Rect \<lparr>draw_x = 400, draw_y = 560, draw_width = 240, draw_height = 240,
                          draw_opacity = 85 / 100\<rparr>),
       Save, Download ''stamped_deed.pdf'']) \<and>
   error twoStampState = None \<and> finite (dom (stamps twoStampState)) \<and>
   stamps twoStampState 2 = Some shiftedStamp \<and>
   pageSizes mixedEnv = Some [(612, 792), (1224, 1000), (612, 792)] \<and>
   pdfDoc twoStampState = Some sampleDoc \<and>
   viewportWidths sampleDoc = [1224, 612, 612] \<and>
   DrawImage 2 (Rect \<lparr>draw_x = 200 / (612 / 1224),
      draw_y = 1000 - 100 / (612 / 1224) - 120 / (612 / 1224),
      draw_width = 120 / (612 / 1224), draw_height = 120 / (612 / 1224),
      draw_opacity = 85 / 100\<rparr>) \<in> set (snd (handleDownload mixedEnv twoStampState))"
proof -
  let ?calls = "[ReadFile, LoadDocument, EmbedPng,
       DrawImage 1 (Rect \<lparr>draw_x = 50, draw_y = 682, draw_width = 60, draw_height = 60,
                          draw_opacity = 85 / 100\<rparr>),
       DrawImage 2 (Rect \<lparr>draw_x = 400, draw_y = 560, draw_width = 240, draw_height = 240,
                          draw_opacity = 85 / 100\<rparr>),
       Save, Download ''stamped_deed.pdf'']"
  have run: "handleDownload mixedEnv twoStampState = (twoStampState, ?calls)"
    by (simp add: handleDownload_def exportPdf_def stampKeys_def stampPage_def pageEntry_def
        toPoints_def mixedEnv_def sampleEnv_def sampleDoc_def twoStampState_def
        sampleState_def sampleFile_def defaultStamp_def shiftedStamp_def)
  have completed: "error twoStampState = None"
    by (simp add: twoStampState_def sampleState_def)
  have fin: "finite (dom (stamps twoStampState))"
    by (simp add: twoStampState_def)
  have p: "stamps twoStampState 2 = Some shiftedStamp"
    by (simp add: twoStampState_def)
  have env: "pageSizes mixedEnv = Some [(612, 792), (1224, 1000), (612, 792)]"
    by (simp add: mixedEnv_def)
  have doc: "pdfDoc twoStampState = Some sampleDoc"
    by (simp add: twoStampState_def sampleState_def)
  have widths: "viewportWidths sampleDoc = [1224, 612, 612]"
    by (simp add: sampleDoc_def)
  from export_stamp_geometry [OF run completed fin p] obtain sizes d where
    sizes: "pageSizes mixedEnv = Some sizes" and d: "pdfDoc twoStampState = Some d"
    and draw: "let pageWidth = fst (sizes ! nat (2 - 1));
                pageHeight = snd (sizes ! nat (2 - 1));
                renderedWidth = viewportWidths d ! nat (2 - 1);
                scale = renderedWidth / pageWidth
            in pageWidth \<noteq> 0 \<and> renderedWidth \<noteq> 0 \<longrightarrow>
                 DrawImage 2 (Rect \<lparr>draw_x = stamp_x shiftedStamp / scale,
                    draw_y = pageHeight - stamp_y shiftedStamp / scale
                               - stamp_height shiftedStamp / scale,
                    draw_width = stamp_width shiftedStamp / scale,
                    draw_height = stamp_height shiftedStamp / scale,
                    draw_opacity = 85 / 100\<rparr>) \<in> set ?calls"
    by blast
  from sizes env have "sizes = [(612, 792), (1224, 1000), (612, 792)]"
    by simp
  moreover from d doc widths have "viewportWidths d = [1224, 612, 612]"
    by simp
  ultimately have "DrawImage 2 (Rect \<lparr>draw_x = 200 / (612 / 1224),
      draw_y = 1000 - 100 / (612 / 1224) - 120 / (612 / 1224),
      draw_width = 120 / (612 / 1224), draw_height = 120 / (612 / 1224),
      draw_opacity = 85 / 100\<rparr>) \<in> set ?calls"
    using draw by (simp add: Let_def shiftedStamp_def)
  with run completed fin p env doc widths show ?thesis by simp
qed



section \<open>The page editor: dragging and resizing\<close>

lemma resizeStamp_eq:
  assumes "stamp_width s \<noteq> 0" and "stamp_height s \<noteq> 0"
  shows "resizeStamp s c =
           Some (s\<lparr>stamp_width := max (max 50 (point_x c - stamp_x s))
                     (max 50 (point_y c - stamp_y s) * (stamp_width s / stamp_height s)),
                   stamp_height := max (max 50 (point_x c - stamp_x s))
                     (max 50 (point_y c - stamp_y s) * (stamp_width s / stamp_height s))
                       / (stamp_width s / stamp_height s)\<rparr>)"
  using assms by (simp add: resizeStamp_def Let_def)

lemma editorMouseMove_resizing:
  assumes "ss p = Some s" and "isResizing ed"
    and "resizeStamp s (getRelativeCoords container e) = Some r"
  shows "editorMouseMove p ed container e ss = Some (ss(p \<mapsto> r))"
  using assms by (simp add: editorMouseMove_def handleMouseMove_def updateStamp_def Let_def)

lemma editorMouseMove_dragging:
  assumes "ss p = Some s" and "isDragging ed" and "\<not> isResizing ed"
  shows "editorMouseMove p ed container e ss =
           Some (ss(p \<mapsto> dragStamp s (getRelativeCoords container e) (dragOffset ed)))"
  using assms by (simp add: editorMouseMove_def handleMouseMove_def updateStamp_def Let_def)

lemma resize_bounds:
  fixes w h nw nh :: real
  assumes "50 \<le> w" and "50 \<le> h" and "50 \<le> nw" and "50 \<le> nh"
  shows "50 \<le> max nw (nh * (w / h))"
    and "50 \<le> max nw (nh * (w / h)) / (w / h)"
    and "max nw (nh * (w / h)) / (max nw (nh * (w / h)) / (w / h)) = w / h"
proof -
  let ?a = "w / h" and ?m = "max nw (nh * (w / h))"
  from assms have a: "0 < ?a" by simp
  from assms show m: "50 \<le> ?m" by simp
  have "nh * ?a \<le> ?m" by simp
  with a have "nh \<le> ?m / ?a" by (simp only: pos_le_divide_eq)
  with assms show "50 \<le> ?m / ?a" by linarith
  from m have "?m \<noteq> 0" by linarith
  with a show "?m / (?m / ?a) = ?a" by simp
qed

text \<open>
  Claim C3. A pointer move while resizing, over a stamp whose width and height are at
  least 50, replaces the stamp by one with
  width \<open>max(max(50, pointerX - x), max(50, pointerY - y) * aspectRatio)\<close> and
  height \<open>width / aspectRatio\<close>, where \<open>aspectRatio\<close> is the stamp's width over its
  height before the move, and the pointer is \<open>(clientX - left, clientY - top)\<close> for the
  container's bounding rectangle, \<open>(0, 0)\<close> while there is no container. The new width
  and the new height are at least 50, and the new width over the new height is
  \<open>aspectRatio\<close>.
\<close>

theorem resize_update:
  assumes s: "ss p = Some s"
    and w: "50 \<le> stamp_width s" and h: "50 \<le> stamp_height s"
    and res: "isResizing ed"
  shows "let pointerX = (case container of None \<Rightarrow> 0
                          | Some rect \<Rightarrow> clientX e - rect_left rect);
             pointerY = (case container of None \<Rightarrow> 0
                          | Some rect \<Rightarrow> clientY e - rect_top rect);
             aspectRatio = stamp_width s / stamp_height s;
             newWidth = max (max 50 (pointerX - stamp_x s))
                            (max 50 (pointerY - stamp_y s) * aspectRatio)
         in editorMouseMove p ed container e ss =
              Some (ss(p \<mapsto> s\<lparr>stamp_width := newWidth,
                                 stamp_height := newWidth / aspectRatio\<rparr>)) \<and>
            50 \<le> newWidth \<and> 50 \<le> newWidth / aspectRatio \<and>
            newWidth / (newWidth / aspectRatio) = aspectRatio"
proof -
  from w h have nz: "stamp_width s \<noteq> 0" "stamp_height s \<noteq> 0" by linarith+
  have b: "50 \<le> max (50::real) a" for a by simp
  have px: "point_x (getRelativeCoords container e) =
      (case container of None \<Rightarrow> 0 | Some rect \<Rightarrow> clientX e - rect_left rect)"
    by (simp add: getRelativeCoords_def split: option.splits)
  have py: "point_y (getRelativeCoords container e) =
      (case container of None \<Rightarrow> 0 | Some rect \<Rightarrow> clientY e - rect_top rect)"
    by (simp add: getRelativeCoords_def split: option.splits)
  note r = resizeStamp_eq [OF nz, of "getRelativeCoords container e"]
  from s res r have "editorMouseMove p ed container e ss = Some (ss(p \<mapsto>
      s\<lparr>stamp_width := max (max 50 (point_x (getRelativeCoords container e) - stamp_x s))
            (max 50 (point_y (getRelativeCoords container e) - stamp_y s)
               * (stamp_width s / stamp_height s)),
          stamp_height := max (max 50 (point_x (getRelativeCoords container e) - stamp_x s))
            (max 50 (point_y (getRelativeCoords container e) - stamp_y s)
               * (stamp_width s / stamp_height s))
              / (stamp_width s / stamp_height s)\<rparr>))"
    by (rule editorMouseMove_resizing)
  with resize_bounds [OF w h b b] show ?thesis
    unfolding Let_def px py by blast
qed

text \<open>
  Two moves over the stamp at (200, 100) of size 120 by 60, with the container at
  (10, 20). The pointer at client (910, 170) is at (900, 150) in the container: the x
  candidate 700 wins over 50 * 2 and the stamp becomes 700 by 350. The pointer at client
  (410, 420) is at (400, 400): the y candidate 300 * 2 wins over 200 and the stamp
  becomes 600 by 300.
\<close>

theorem resize_update_witness:
  "([1 \<mapsto> movedStamp] :: StampState) 1 = Some movedStamp \<and>
   50 \<le> stamp_width movedStamp \<and> 50 \<le> stamp_height movedStamp \<and>
   isResizing (initialEditor\<lparr>isResizing := True\<rparr>) \<and>
   editorMouseMove 1 (initialEditor\<lparr>isResizing := True\<rparr>) (Some sampleRect)
       \<lparr>clientX = 910, clientY = 170\<rparr> [1 \<mapsto> movedStamp] =
     Some [1 \<mapsto> movedStamp\<lparr>stamp_width := 700, stamp_height := 350\<rparr>] \<and>
   editorMouseMove 1 (initialEditor\<lparr>isResizing := True\<rparr>) (Some sampleRect) samplePointer
       [1 \<mapsto> movedStamp] =
     Some [1 \<mapsto> movedStamp\<lparr>stamp_width := 600, stamp_height := 300\<rparr>]"
proof -
  have s: "([1 \<mapsto> movedStamp] :: StampState) 1 = Some movedStamp"
    by simp
  have w: "50 \<le> stamp_width movedStamp" and h: "50 \<le> stamp_height movedStamp"
    by (simp_all add: movedStamp_def)
  have res: "isResizing (initialEditor\<lparr>isResizing := True\<rparr>)"
    by simp
  from resize_update [where ss = "[1 \<mapsto> movedStamp]" and p = 1 and s = movedStamp
      and ed = "initialEditor\<lparr>isResizing := True\<rparr>" and container = "Some sampleRect"
      and e = "\<lparr>clientX = 910, clientY = 170\<rparr>", OF s w h res]
  have wide: "editorMouseMove 1 (initialEditor\<lparr>isResizing := True\<rparr>) (Some sampleRect)
       \<lparr>clientX = 910, clientY = 170\<rparr> [1 \<mapsto> movedStamp] =
     Some [1 \<mapsto> movedStamp\<lparr>stamp_width := 700, stamp_height := 350\<rparr>]"
    by (simp add: Let_def sampleRect_def movedStamp_def)
  from resize_update [where ss = "[1 \<mapsto> movedStamp]" and p = 1 and s = movedStamp
      and ed = "initialEditor\<lparr>isResizing := True\<rparr>" and container = "Some sampleRect"
      and e = samplePointer, OF s w h res]
  have tall: "editorMouseMove 1 (initialEditor\<lparr>isResizing := True\<rparr>) (Some sampleRect)
       samplePointer [1 \<mapsto> movedStamp] =
     Some [1 \<mapsto> movedStamp\<lparr>stamp_width := 600, stamp_height := 300\<rparr>]"
    by (simp add: Let_def sampleRect_def samplePointer_def movedStamp_def)
  from s w h res wide tall show ?thesis by (simp only: simp_thms)
qed

text \<open>
  Claim C8. Pointer-down on the stamp starts a drag and captures the grab offset: the
  pointer position relative to the page container minus the stamp's position. Every
  pointer move while dragging emits first the stamp with x and y set to the pointer
  position relative to the container minus the grab offset; its width, height and
  \<open>isPlaced\<close> are those of the stamp before the move. In a drag that is not also a
  resize this is the only update, and it becomes the page's stamp.
\<close>

theorem drag_update:
  "(let pointerDown = getRelativeCoords container0 e0;
        ed' = handleStampMouseDown (Some s0) container0 e0 ed0
    in isDragging ed' \<and> isResizing ed' = isResizing ed0 \<and>
       dragOffset ed' = \<lparr>point_x = point_x pointerDown - stamp_x s0,
                         point_y = point_y pointerDown - stamp_y s0\<rparr>)
   \<and>
   (let pointer = getRelativeCoords container e;
        s' = s\<lparr>stamp_x := point_x pointer - point_x (dragOffset ed),
               stamp_y := point_y pointer - point_y (dragOffset ed)\<rparr>
    in stamp_width s' = stamp_width s \<and> stamp_height s' = stamp_height s \<and>
       isPlaced s' = isPlaced s \<and>
       (isDragging ed \<longrightarrow>
          (\<forall>changes. handleMouseMove ed (Some s) container e = Some changes \<longrightarrow>
             changes \<noteq> [] \<and> hd changes = s')) \<and>
       (isDragging ed \<and> \<not> isResizing ed \<and> ss p = Some s \<longrightarrow>
          handleMouseMove ed (Some s) container e = Some [s'] \<and>
          editorMouseMove p ed container e ss = Some (ss(p \<mapsto> s'))))"
proof -
  have down: "let pointerDown = getRelativeCoords container0 e0;
        ed' = handleStampMouseDown (Some s0) container0 e0 ed0
    in isDragging ed' \<and> isResizing ed' = isResizing ed0 \<and>
       dragOffset ed' = \<lparr>point_x = point_x pointerDown - stamp_x s0,
                         point_y = point_y pointerDown - stamp_y s0\<rparr>"
    by (simp add: handleStampMouseDown_def Let_def)
  have first: "isDragging ed \<longrightarrow>
          (\<forall>changes. handleMouseMove ed (Some s) container e = Some changes \<longrightarrow>
             changes \<noteq> [] \<and>
             hd changes = dragStamp s (getRelativeCoords container e) (dragOffset ed))"
    by (auto simp: handleMouseMove_def Let_def split: option.splits if_splits)
  have only: "isDragging ed \<and> \<not> isResizing ed \<and> ss p = Some s \<longrightarrow>
          handleMouseMove ed (Some s) container e =
            Some [dragStamp s (getRelativeCoords container e) (dragOffset ed)] \<and>
          editorMouseMove p ed container e ss =
            Some (ss(p \<mapsto> dragStamp s (getRelativeCoords container e) (dragOffset ed)))"
    using editorMouseMove_dragging by (simp add: handleMouseMove_def)
  from first only have move: "let pointer = getRelativeCoords container e;
        s' = s\<lparr>stamp_x := point_x pointer - point_x (dragOffset ed),
               stamp_y := point_y pointer - point_y (dragOffset ed)\<rparr>
    in stamp_width s' = stamp_width s \<and> stamp_height s' = stamp_height s \<and>
       isPlaced s' = isPlaced s \<and>
       (isDragging ed \<longrightarrow>
          (\<forall>changes. handleMouseMove ed (Some s) container e = Some changes \<longrightarrow>
             changes \<noteq> [] \<and> hd changes = s')) \<and>
       (isDragging ed \<and> \<not> isResizing ed \<and> ss p = Some s \<longrightarrow>
          handleMouseMove ed (Some s) container e = Some [s'] \<and>
          editorMouseMove p ed container e ss = Some (ss(p \<mapsto> s')))"
    unfolding Let_def dragStamp_def by simp
  from down move show ?thesis by (rule conjI)
qed

theorem drag_update_witness:
  "isDragging (handleStampMouseDown (Some defaultStamp) (Some sampleRect)
      \<lparr>clientX = 160, clientY = 180\<rparr> initialEditor) \<and>
   \<not> isResizing (handleStampMouseDown (Some defaultStamp) (Some sampleRect)
      \<lparr>clientX = 160, clientY = 180\<rparr> initialEditor) \<and>
   ([1 \<mapsto> defaultStamp] :: StampState) 1 = Some defaultStamp \<and>
   dragOffset (handleStampMouseDown (Some defaultStamp) (Some sampleRect)
      \<lparr>clientX = 160, clientY = 180\<rparr> initialEditor) = \<lparr>point_x = 50, point_y = 60\<rparr> \<and>
   editorMouseMove 1
     (handleStampMouseDown (Some defaultStamp) (Some sampleRect)
        \<lparr>clientX = 160, clientY = 180\<rparr> initialEditor)
     (Some sampleRect) samplePointer [1 \<mapsto> defaultStamp] =
     Some [1 \<mapsto> defaultStamp\<lparr>stamp_x := 350, stamp_y := 340\<rparr>]"
proof -
  let ?ed = "handleStampMouseDown (Some defaultStamp) (Some sampleRect)
      \<lparr>clientX = 160, clientY = 180\<rparr> initialEditor"
  note inst = drag_update [where container0 = "Some sampleRect"
      and ?e0.0 = "\<lparr>clientX = 160, clientY = 180\<rparr>" and ?s0.0 = defaultStamp
      and ?ed0.0 = initialEditor and container = "Some sampleRect" and e = samplePointer
      and s = defaultStamp and ed = ?ed and ss = "[1 \<mapsto> defaultStamp]" and p = 1,
      unfolded Let_def]
  note down_part = inst [THEN conjunct1]
  note move_part = inst [THEN conjunct2, THEN conjunct2, THEN conjunct2, THEN conjunct2,
      THEN conjunct2]
  have c0: "getRelativeCoords (Some sampleRect) \<lparr>clientX = 160, clientY = 180\<rparr> =
      \<lparr>point_x = 150, point_y = 160\<rparr>"
    by (simp add: getRelativeCoords_def sampleRect_def)
  have c1: "getRelativeCoords (Some sampleRect) samplePointer =
      \<lparr>point_x = 400, point_y = 400\<rparr>"
    by (simp add: getRelativeCoords_def sampleRect_def samplePointer_def)
  from down_part have drag: "isDragging ?ed" by (rule conjunct1)
  from down_part have "isResizing ?ed = isResizing initialEditor" by blast
  then have nores: "\<not> isResizing ?ed"
    by (simp only: initialEditor_def EditorState.simps simp_thms)
  from down_part have "dragOffset ?ed =
      \<lparr>point_x = point_x (getRelativeCoords (Some sampleRect) \<lparr>clientX = 160, clientY = 180\<rparr>)
                  - stamp_x defaultStamp,
       point_y = point_y (getRelativeCoords (Some sampleRect) \<lparr>clientX = 160, clientY = 180\<rparr>)
                  - stamp_y defaultStamp\<rparr>"
    by blast
  then have off: "dragOffset ?ed = \<lparr>point_x = 50, point_y = 60\<rparr>"
    unfolding c0 by (simp add: defaultStamp_def)
  have s: "([1 \<mapsto> defaultStamp] :: StampState) 1 = Some defaultStamp"
    by simp
  from drag nores s have pre: "isDragging ?ed \<and> \<not> isResizing ?ed \<and>
      ([1 \<mapsto> defaultStamp] :: StampState) 1 = Some defaultStamp"
    by (intro conjI)
  from move_part [THEN mp, OF pre]
  have "editorMouseMove 1 ?ed (Some sampleRect) samplePointer [1 \<mapsto> defaultStamp] =
     Some [1 \<mapsto> defaultStamp, 1 \<mapsto> defaultStamp
       \<lparr>stamp_x := point_x (getRelativeCoords (Some sampleRect) samplePointer)
                     - point_x (dragOffset ?ed),
         stamp_y := point_y (getRelativeCoords (Some sampleRect) samplePointer)
                     - point_y (dragOffset ?ed)\<rparr>]"
    by (rule conjunct2)
  then have "editorMouseMove 1 ?ed (Some sampleRect) samplePointer [1 \<mapsto> defaultStamp] =
     Some [1 \<mapsto> defaultStamp\<lparr>stamp_x := 350, stamp_y := 340\<rparr>]"
    unfolding off c1 by simp
  with drag nores s off show ?thesis by (simp only: simp_thms)
qed

section \<open>Every stored stamp is placed\<close>

lemma allPlaced_toggle: "allPlaced ss \<Longrightarrow> allPlaced (toggleStamp p ss)"
  by (auto simp: allPlaced_def toggleStamp_def updateStamp_def defaultStamp_def
      split: option.splits if_splits)

lemma allPlaced_remove: "allPlaced ss \<Longrightarrow> allPlaced (updateStamp p None ss)"
  by (auto simp: allPlaced_def updateStamp_def split: if_splits)

lemma resizeStamp_isPlaced: "resizeStamp s c = Some r \<Longrightarrow> isPlaced r = isPlaced s"
  by (auto simp: resizeStamp_def Let_def split: if_splits)

lemma handleMouseMove_isPlaced:
  assumes "handleMouseMove ed (Some s) container e = Some changes" and "c \<in> set changes"
  shows "isPlaced c = isPlaced s"
  using assms
  by (auto simp: handleMouseMove_def Let_def dragStamp_def
      split: option.splits if_splits dest: resizeStamp_isPlaced)

lemma allPlaced_changes:
  "allPlaced ss \<Longrightarrow> \<forall>c \<in> set changes. isPlaced c \<Longrightarrow>
     allPlaced (foldl (\<lambda>m s. updateStamp p (Some s) m) ss changes)"
proof (induction changes arbitrary: ss)
  case Nil
  then show ?case by simp
next
  case (Cons c changes)
  from Cons.prems have "allPlaced (updateStamp p (Some c) ss)"
    by (auto simp: allPlaced_def updateStamp_def)
  with Cons show ?case by simp
qed

lemma allPlaced_move:
  assumes inv: "allPlaced ss" and mv: "editorMouseMove p ed container e ss = Some ss'"
  shows "allPlaced ss'"
proof (cases "ss p")
  case None
  with mv have "ss' = ss" by (simp add: editorMouseMove_def handleMouseMove_def)
  with inv show ?thesis by simp
next
  case (Some s)
  with mv obtain changes where ch: "handleMouseMove ed (Some s) container e = Some changes"
    and ss': "ss' = foldl (\<lambda>m s. updateStamp p (Some s) m) ss changes"
    by (auto simp: editorMouseMove_def split: option.splits)
  from inv Some have "isPlaced s" by (simp add: allPlaced_def)
  with handleMouseMove_isPlaced [OF ch] have "\<forall>c \<in> set changes. isPlaced c" by simp
  with inv ss' show ?thesis by (simp add: allPlaced_changes)
qed

lemma reachable_allPlaced: "reachable ss \<Longrightarrow> allPlaced ss"
proof (induction rule: reachable.induct)
  case cleared
  show ?case by (simp add: allPlaced_def)
next
  case (toggled ss page)
  then show ?case by (simp add: allPlaced_toggle)
next
  case (moved ss page ed container e ss')
  then show ?case using allPlaced_move by blast
qed

text \<open>
  Claim C9. Toggling, removal and every pointer move (drag or resize) keep the invariant
  that each stamp in the mapping has \<open>isPlaced = true\<close>; removal deletes the key; so
  every reachable StampState satisfies the invariant.
\<close>

theorem stamps_always_placed:
  "(allPlaced ss \<longrightarrow> allPlaced (toggleStamp p ss)) \<and>
   (allPlaced ss \<longrightarrow> allPlaced (updateStamp p None ss)) \<and>
   updateStamp p None ss p = None \<and>
   (allPlaced ss \<longrightarrow>
      (\<forall>ss'. editorMouseMove p ed container e ss = Some ss' \<longrightarrow> allPlaced ss')) \<and>
   (reachable ss \<longrightarrow> allPlaced ss)"
  using allPlaced_toggle allPlaced_remove allPlaced_move reachable_allPlaced
  by (auto simp: updateStamp_def)

theorem stamps_always_placed_witness:
  "reachable (toggleStamp 1 Map.empty) \<and>
   allPlaced (toggleStamp 1 Map.empty) \<and>
   allPlaced (toggleStamp 2 (toggleStamp 1 Map.empty)) \<and>
   allPlaced (updateStamp 1 None (toggleStamp 1 Map.empty)) \<and>
   editorMouseMove 1 (initialEditor\<lparr>isResizing := True\<rparr>) (Some sampleRect) samplePointer
     (toggleStamp 1 Map.empty) =
     Some [1 \<mapsto> defaultStamp\<lparr>stamp_width := 300, stamp_height := 300\<rparr>] \<and>
   allPlaced [1 \<mapsto> defaultStamp\<lparr>stamp_width := 300, stamp_height := 300\<rparr>]"
proof -
  let ?ss = "toggleStamp 1 Map.empty"
  let ?ed = "initialEditor\<lparr>isResizing := True\<rparr>"
  let ?ss' = "[1 \<mapsto> defaultStamp\<lparr>stamp_width := 300, stamp_height := 300\<rparr>]"
  note inst = stamps_always_placed [of ?ss _ ?ed "Some sampleRect" samplePointer]
  have r: "reachable ?ss"
    by (rule reachable.toggled) (rule reachable.cleared)
  with inst have inv: "allPlaced ?ss" by blast
  have mv: "editorMouseMove 1 ?ed (Some sampleRect) samplePointer ?ss = Some ?ss'"
    by (simp add: editorMouseMove_def handleMouseMove_def resizeStamp_def
        getRelativeCoords_def updateStamp_def toggleStamp_def defaultStamp_def
        initialEditor_def sampleRect_def samplePointer_def Let_def)
  from inst [of 2] inv have "allPlaced (toggleStamp 2 ?ss)" by blast
  moreover from inst [of 1] inv have "allPlaced (updateStamp 1 None ?ss)" by blast
  moreover from inst [of 1] inv mv have "allPlaced ?ss'" by blast
  ultimately show ?thesis using r inv mv by (simp only: simp_thms)
qed

section \<open>Reachable stamps stay within the model\<close>

lemma allSized_toggle: "allSized ss \<Longrightarrow> allSized (toggleStamp p ss)"
  by (auto simp: allSized_def toggleStamp_def updateStamp_def defaultStamp_def
      split: option.splits if_splits)

lemma handleMouseMove_sized:
  assumes "handleMouseMove ed (Some s) container e = Some changes" and "c \<in> set changes"
    and w: "50 \<le> stamp_width s" and h: "50 \<le> stamp_height s"
  shows "50 \<le> stamp_width c \<and> 50 \<le> stamp_height c"
proof -
  from w h have nz: "stamp_width s \<noteq> 0" "stamp_height s \<noteq> 0" by linarith+
  have b: "50 \<le> max (50::real) a" for a by simp
  from assms(1,2) have "c = dragStamp s (getRelativeCoords container e) (dragOffset ed) \<or>
      resizeStamp s (getRelativeCoords container e) = Some c"
    by (auto simp: handleMouseMove_def Let_def split: option.splits if_splits)
  then show ?thesis
  proof
    assume "c = dragStamp s (getRelativeCoords container e) (dragOffset ed)"
    with w h show ?thesis by (simp add: dragStamp_def)
  next
    assume "resizeStamp s (getRelativeCoords container e) = Some c"
    with resizeStamp_eq [OF nz, of "getRelativeCoords container e"]
      resize_bounds(1,2) [OF w h b b]
    show ?thesis by auto
  qed
qed

lemma allSized_changes:
  "allSized ss \<Longrightarrow> \<forall>c \<in> set changes. 50 \<le> stamp_width c \<and> 50 \<le> stamp_height c \<Longrightarrow>
     allSized (foldl (\<lambda>m s. updateStamp p (Some s) m) ss changes)"
proof (induction changes arbitrary: ss)
  case Nil
  then show ?case by simp
next
  case (Cons c changes)
  from Cons.prems have "allSized (updateStamp p (Some c) ss)"
    by (auto simp: allSized_def updateStamp_def)
  with Cons show ?case by simp
qed

lemma allSized_move:
  assumes inv: "allSized ss" and mv: "editorMouseMove p ed container e ss = Some ss'"
  shows "allSized ss'"
proof (cases "ss p")
  case None
  with mv have "ss' = ss" by (simp add: editorMouseMove_def handleMouseMove_def)
  with inv show ?thesis by simp
next
  case (Some s)
  with mv obtain changes where ch: "handleMouseMove ed (Some s) container e = Some changes"
    and ss': "ss' = foldl (\<lambda>m s. updateStamp p (Some s) m) ss changes"
    by (auto simp: editorMouseMove_def split: option.splits)
  from inv Some have "50 \<le> stamp_width s" "50 \<le> stamp_height s"
    by (simp_all add: allSized_def)
  with handleMouseMove_sized [OF ch]
  have "\<forall>c \<in> set changes. 50 \<le> stamp_width c \<and> 50 \<le> stamp_height c" by blast
  with inv ss' show ?thesis by (simp add: allSized_changes)
qed

lemma reachable_allSized: "reachable ss \<Longrightarrow> allSized ss"
proof (induction rule: reachable.induct)
  case cleared
  show ?case by (simp add: allSized_def)
next
  case (toggled ss page)
  then show ?case by (simp add: allSized_toggle)
next
  case (moved ss page ed container e ss')
  then show ?case using allSized_move by blast
qed

text \<open>
  From a reachable StampState no pointer move divides by zero: \<open>editorMouseMove\<close> always
  has a result.
\<close>

lemma reachable_move_defined:
  assumes "reachable ss"
  shows "\<exists>ss'. editorMouseMove p ed container e ss = Some ss'"
proof (cases "ss p")
  case None
  then show ?thesis by (simp add: editorMouseMove_def handleMouseMove_def)
next
  case (Some s)
  with reachable_allSized [OF assms] have "stamp_width s \<noteq> 0" "stamp_height s \<noteq> 0"
    by (fastforce simp: allSized_def)+
  from resizeStamp_eq [OF this] Some show ?thesis
    by (simp add: editorMouseMove_def handleMouseMove_def Let_def)
qed

end
